theory Spec2Isabelle
  imports Complex_Main "HOL-Library.Word"
begin

unbundle bit_operations_syntax

section \<open>Data model\<close>

text \<open>
  The firmware computes on \<^verbatim>\<open>float32_t\<close>. Those values are modelled by the real numbers:
  rounding, overflow and NaN are outside this development, and the constants
  \<^verbatim>\<open>_PI_\<close> and \<^verbatim>\<open>_2_PI_\<close> of TrajectoryPlanning.hpp denote \<open>pi\<close> and \<open>2 * pi\<close>.
  \<^verbatim>\<open>uint32_t\<close> is \<open>32 word\<close> and \<^verbatim>\<open>uint16_t\<close> is \<open>16 word\<close>, so that the unsigned
  wrap-around of \<^verbatim>\<open>i-1\<close> and \<^verbatim>\<open>XYn-1\<close> is the one of the code. The sequencing counter
  \<^verbatim>\<open>step\<close> (an \<^verbatim>\<open>int32_t\<close> that only ever holds 0..6) is an \<open>int\<close>.
\<close>

type_synonym float32_t = real
type_synonym uint32_t = "32 word"
type_synonym uint16_t = "16 word"

text \<open>\<^verbatim>\<open>enum state_t\<close> of TrajectoryPlanning.hpp.\<close>

datatype state_t =
  FREE | LINEAR | ANGULAR | STOP | KEEP | LINEARPLAN | CURVEPLAN | STALLX | STALLY | DRAWPLAN

text \<open>
  How a call can fail to return a state: the \<^verbatim>\<open>assert\<close> of \<^verbatim>\<open>pushXY\<close> fails (the process
  is aborted), or an array is indexed outside its bounds (undefined behaviour in C++).
\<close>

datatype error = AssertionFailed | IndexOutOfBounds

text \<open>
  The fields of \<^verbatim>\<open>robot_t\<close> that the planner reads. The type is declared in Odometry.hpp,
  which is not among the files modelled here; Diag.cpp prints \<^verbatim>\<open>Xmm\<close> and \<^verbatim>\<open>Ymm\<close> with
  \<^verbatim>\<open>%ld\<close>, so the millimetre fields are integers.
\<close>

record robot_t =
  r_Xmm :: int
  r_Ymm :: int
  r_Lmm :: int
  r_L :: float32_t
  r_O :: float32_t

text \<open>
  What the collaborators answer during one call: the odometry provider
  (\<^verbatim>\<open>GetRobot\<close>, \<^verbatim>\<open>GetLinearPosition\<close>, \<^verbatim>\<open>GetAngularPosition\<close>) and the position servo's
  arrival observer (\<^verbatim>\<open>isPositioningFinished\<close>). No relation between the accessors is
  assumed.
\<close>

record env =
  GetRobot :: robot_t
  GetLinearPosition :: float32_t
  GetAngularPosition :: float32_t
  isPositioningFinished :: bool

text \<open>The calls the planner makes on the position servo and on the odometry provider.\<close>

datatype call =
  SetLinearPosition float32_t
  | SetAngularPosition float32_t
  | Enable
  | Disable
  | SetXO float32_t float32_t
  | SetYO float32_t float32_t

text \<open>
  The data members of class \<^verbatim>\<open>TrajectoryPlanning\<close>. The arrays \<^verbatim>\<open>X[10]\<close> and \<^verbatim>\<open>Y[10]\<close>
  are functions from the index; every read and write checks the index against 10 first
  (\<open>in_bounds\<close> below). Two fields are not members of the class: \<open>DrawPlan_n\<close> is
  the function-static cursor \<^verbatim>\<open>n\<close> of \<^verbatim>\<open>calculateDrawPlan\<close>, and \<open>calls\<close> lists the
  calls made on the collaborators, oldest first.
\<close>

record TrajectoryPlanning =
  status :: uint16_t
  finished :: bool
  state :: state_t
  step :: int
  linearSetPoint :: float32_t
  linearNextSetPoint :: float32_t
  angularSetPoint :: float32_t
  stallMode :: int
  startTime :: float32_t
  startLinearPosition :: float32_t
  startAngularPosition :: float32_t
  endLinearPosition :: float32_t
  endAngularPosition :: float32_t
  X_arr :: "nat \<Rightarrow> float32_t"
  Y_arr :: "nat \<Rightarrow> float32_t"
  XYn :: uint32_t
  DrawPlan_n :: uint32_t
  calls :: "call list"

definition GetStatus :: "TrajectoryPlanning \<Rightarrow> uint16_t" where
  "GetStatus s = status s"

definition isFinished :: "TrajectoryPlanning \<Rightarrow> bool" where
  "isFinished s = finished s"

definition GetStep :: "TrajectoryPlanning \<Rightarrow> uint32_t" where
  "GetStep s = word_of_int (step s)"

section \<open>The trajectory state machine\<close>

subsection \<open>Construction\<close>

text \<open>
  The constructor. The object is allocated with \<^verbatim>\<open>new\<close>, so the array cells other than
  \<^verbatim>\<open>X[0]\<close> and \<^verbatim>\<open>Y[0]\<close> hold whatever the memory held: the parameters \<open>uX\<close> and \<open>uY\<close>.
  The static cursor of \<^verbatim>\<open>calculateDrawPlan\<close> is initialised to 0 by its declaration.
\<close>

definition TrajectoryPlanning_new :: "(nat \<Rightarrow> float32_t) \<Rightarrow> (nat \<Rightarrow> float32_t) \<Rightarrow> TrajectoryPlanning" where
  "TrajectoryPlanning_new uX uY =
     \<lparr> status = 0,
       finished = True,
       state = FREE,
       step = 0,
       linearSetPoint = 0,
       linearNextSetPoint = 0,
       angularSetPoint = 0,
       stallMode = 0,
       startTime = 0,
       startLinearPosition = 0,
       startAngularPosition = 0,
       endLinearPosition = 0,
       endAngularPosition = 0,
       X_arr = uX(0 := 0),
       Y_arr = uY(0 := 0),
       XYn = 0,
       DrawPlan_n = 0,
       calls = [] \<rparr>"

subsection \<open>Geometry\<close>

text \<open>
  \<^verbatim>\<open>atan2f\<close> of the C library, by its mathematical definition: the angle in \<open>(-pi, pi]\<close>
  of the point \<open>(x, y)\<close>, and 0 at the origin.
\<close>

definition atan2f :: "float32_t \<Rightarrow> float32_t \<Rightarrow> float32_t" where
  "atan2f y x =
     (if 0 < x then arctan (y / x)
      else if x < 0 then (if 0 \<le> y then arctan (y / x) + pi else arctan (y / x) - pi)
      else if 0 < y then pi / 2
      else if y < 0 then - (pi / 2)
      else 0)"

text \<open>
  The two loops under the comment \<^verbatim>\<open>Faster path\<close>, in \<^verbatim>\<open>gotoXY\<close> and in \<^verbatim>\<open>updateXYtoLA\<close>:
  \<^verbatim>\<open>while((a - r.O) > _PI_) a -= _2_PI_;\<close> and \<^verbatim>\<open>while((a - r.O) < -_PI_) a += _2_PI_;\<close>
\<close>

function unwrap_down :: "float32_t \<Rightarrow> float32_t \<Rightarrow> float32_t" where
  "unwrap_down a h = (if a - h > pi then unwrap_down (a - 2 * pi) h else a)"
  by pat_completeness auto
termination
proof (relation "measure (\<lambda>(a, h). nat \<lceil>(a - h) / (2 * pi)\<rceil>)")
  show "wf (measure (\<lambda>(a, h). nat \<lceil>(a - h) / (2 * pi)\<rceil>))"
    by simp
next
  fix a h :: real
  assume gt: "pi < a - h"
  have "(a - 2 * pi - h) / (2 * pi) = (a - h) / (2 * pi) - 1"
    by (simp add: field_simps)
  then have eq: "\<lceil>(a - 2 * pi - h) / (2 * pi)\<rceil> = \<lceil>(a - h) / (2 * pi)\<rceil> - 1"
    by simp
  have "0 < a - h"
    using gt pi_gt_zero by linarith
  then have "0 < (a - h) / (2 * pi)"
    by simp
  then have "0 < \<lceil>(a - h) / (2 * pi)\<rceil>"
    by simp
  with eq show "((a - 2 * pi, h), (a, h)) \<in> measure (\<lambda>(a, h). nat \<lceil>(a - h) / (2 * pi)\<rceil>)"
    by simp
qed

function unwrap_up :: "float32_t \<Rightarrow> float32_t \<Rightarrow> float32_t" where
  "unwrap_up a h = (if a - h < - pi then unwrap_up (a + 2 * pi) h else a)"
  by pat_completeness auto
termination
proof (relation "measure (\<lambda>(a, h). nat \<lceil>(h - a) / (2 * pi)\<rceil>)")
  show "wf (measure (\<lambda>(a, h). nat \<lceil>(h - a) / (2 * pi)\<rceil>))"
    by simp
next
  fix a h :: real
  assume lt: "a - h < - pi"
  have "(h - (a + 2 * pi)) / (2 * pi) = (h - a) / (2 * pi) - 1"
    by (simp add: field_simps)
  then have eq: "\<lceil>(h - (a + 2 * pi)) / (2 * pi)\<rceil> = \<lceil>(h - a) / (2 * pi)\<rceil> - 1"
    by simp
  have "0 < h - a"
    using lt pi_gt_zero by linarith
  then have "0 < (h - a) / (2 * pi)"
    by simp
  then have "0 < \<lceil>(h - a) / (2 * pi)\<rceil>"
    by simp
  with eq show "((a + 2 * pi, h), (a, h)) \<in> measure (\<lambda>(a, h). nat \<lceil>(h - a) / (2 * pi)\<rceil>)"
    by simp
qed

declare unwrap_down.simps [simp del]
declare unwrap_up.simps [simp del]

definition faster_path :: "float32_t \<Rightarrow> float32_t \<Rightarrow> float32_t" where
  "faster_path a h = unwrap_up (unwrap_down a h) h"

text \<open>\<^verbatim>\<open>TrajectoryPlanning::abs\<close>.\<close>

definition abs_val :: "float32_t \<Rightarrow> float32_t" where
  "abs_val val = (if val < 0 then - val else val)"

subsection \<open>Orders\<close>

definition goLinear :: "float32_t \<Rightarrow> env \<Rightarrow> TrajectoryPlanning \<Rightarrow> TrajectoryPlanning" where
  "goLinear lin e s =
     (let Lm = GetLinearPosition e
      in s\<lparr> linearSetPoint := Lm + lin, state := LINEAR, step := 1 \<rparr>)"

definition goAngular :: "float32_t \<Rightarrow> TrajectoryPlanning \<Rightarrow> TrajectoryPlanning" where
  "goAngular angular s = s\<lparr> angularSetPoint := angular, state := ANGULAR, step := 1 \<rparr>"

definition freewheel :: "TrajectoryPlanning \<Rightarrow> TrajectoryPlanning" where
  "freewheel s = s\<lparr> state := FREE, step := 1 \<rparr>"

definition stop :: "TrajectoryPlanning \<Rightarrow> TrajectoryPlanning" where
  "stop s = s\<lparr> state := STOP, step := 1 \<rparr>"

definition gotoXY :: "float32_t \<Rightarrow> float32_t \<Rightarrow> env \<Rightarrow> TrajectoryPlanning \<Rightarrow> TrajectoryPlanning" where
  "gotoXY X Y e s =
     (let r = GetRobot e;
          Xm = real_of_int (r_Xmm r) / 1000;
          Ym = real_of_int (r_Ymm r) / 1000;
          Lm = real_of_int (r_Lmm r) / 1000;
          XX = (X - Xm) ^ 2;
          YY = (Y - Ym) ^ 2;
          dX = X - Xm;
          dY = Y - Ym
      in s\<lparr> linearSetPoint := Lm + sqrt (XX + YY),
             angularSetPoint := faster_path (atan2f dY dX) (r_O r),
             state := LINEARPLAN,
             step := 1 \<rparr>)"

text \<open>
  A sequence of calls stops at the first one that does not return.
\<close>

definition and_then :: "error + 'a \<Rightarrow> ('a \<Rightarrow> error + 'b) \<Rightarrow> error + 'b" where
  "and_then m f = (case m of Inl err \<Rightarrow> Inl err | Inr x \<Rightarrow> f x)"

text \<open>An index into \<^verbatim>\<open>X[10]\<close> or \<^verbatim>\<open>Y[10]\<close> is valid below 10.\<close>

definition in_bounds :: "uint32_t \<Rightarrow> bool" where
  "in_bounds i = (unat i < 10)"

lemma unat_less_step: "(i :: uint32_t) < k \<Longrightarrow> unat k - unat (i + 1) < unat k - unat i"
  by unat_arith

text \<open>
  The copy loop of \<^verbatim>\<open>pushXY\<close>: \<^verbatim>\<open>for(i=0 ; i<n ; i++)\<close>. The arguments \<^verbatim>\<open>X[]\<close> and
  \<^verbatim>\<open>Y[]\<close> are the caller's arrays, here lists; reading them past their end is out of
  bounds as well.
\<close>

function pushXY_loop ::
  "float32_t list \<Rightarrow> float32_t list \<Rightarrow> uint32_t \<Rightarrow> uint32_t \<Rightarrow> TrajectoryPlanning
     \<Rightarrow> error + TrajectoryPlanning" where
  "pushXY_loop X Y k i s =
     (if i < k then
        (if in_bounds i \<and> unat i < length X \<and> unat i < length Y then
           pushXY_loop X Y k (i + 1)
             (s\<lparr> X_arr := (X_arr s)(unat i := X ! unat i),
                  Y_arr := (Y_arr s)(unat i := Y ! unat i) \<rparr>)
         else Inl IndexOutOfBounds)
      else Inr s)"
  by pat_completeness auto
termination
  by (relation "measure (\<lambda>(X, Y, k, i, s). unat k - unat i)") (simp_all add: unat_less_step)

declare pushXY_loop.simps [simp del]

text \<open>\<^verbatim>\<open>assert(n<10)\<close> aborts the process when it fails.\<close>

definition pushXY ::
  "float32_t list \<Rightarrow> float32_t list \<Rightarrow> uint32_t \<Rightarrow> TrajectoryPlanning
     \<Rightarrow> error + TrajectoryPlanning" where
  "pushXY X Y k s =
     (if k < 10 then
        and_then (pushXY_loop X Y k 0 s)
          (\<lambda>s1. Inr (s1\<lparr> XYn := k, state := DRAWPLAN, step := 1 \<rparr>))
      else Inl AssertionFailed)"

text \<open>\<^verbatim>\<open>stallX\<close> and \<^verbatim>\<open>stallY\<close> return 0 and do not read their argument.\<close>

definition stallX :: "int \<Rightarrow> env \<Rightarrow> TrajectoryPlanning \<Rightarrow> TrajectoryPlanning" where
  "stallX mode e s =
     (let r = GetRobot e;
          s1 = s\<lparr> startLinearPosition := r_L r, startAngularPosition := r_O r \<rparr>
      in s1\<lparr> endLinearPosition := startLinearPosition s1 - 0,
              endAngularPosition := 0,
              state := STALLX,
              step := 1 \<rparr>)"

definition stallY :: "int \<Rightarrow> env \<Rightarrow> TrajectoryPlanning \<Rightarrow> TrajectoryPlanning" where
  "stallY mode e s =
     (let r = GetRobot e;
          s1 = s\<lparr> startLinearPosition := r_L r, startAngularPosition := r_O r \<rparr>
      in s1\<lparr> endLinearPosition := startLinearPosition s1 - 0,
              endAngularPosition := pi / 2,
              state := STALLY,
              step := 1 \<rparr>)"

subsection \<open>The update cycle\<close>

definition calculateFree :: "TrajectoryPlanning \<Rightarrow> TrajectoryPlanning" where
  "calculateFree s = s\<lparr> calls := calls s @ [Disable] \<rparr>"

definition calculateMove :: "TrajectoryPlanning \<Rightarrow> TrajectoryPlanning" where
  "calculateMove s = s\<lparr> calls := calls s @ [Enable] \<rparr>"

definition calculateStop :: "TrajectoryPlanning \<Rightarrow> TrajectoryPlanning" where
  "calculateStop s = s\<lparr> calls := calls s @ [Disable] \<rparr>"

definition calculateKeepPosition :: "TrajectoryPlanning \<Rightarrow> TrajectoryPlanning" where
  "calculateKeepPosition s = s"

definition calculateCurvePlan :: "TrajectoryPlanning \<Rightarrow> TrajectoryPlanning" where
  "calculateCurvePlan s = s"

definition calculateGoLinear :: "env \<Rightarrow> TrajectoryPlanning \<Rightarrow> TrajectoryPlanning" where
  "calculateGoLinear e s =
     (if step s = 1 then
        s\<lparr> calls := calls s @ [SetLinearPosition (linearSetPoint s),
                                 SetAngularPosition (GetAngularPosition e)],
             step := 2 \<rparr>
      else if step s = 2 then
        (if isPositioningFinished e then s\<lparr> step := 3, state := FREE \<rparr> else s)
      else s)"

definition calculateGoAngular :: "env \<Rightarrow> TrajectoryPlanning \<Rightarrow> TrajectoryPlanning" where
  "calculateGoAngular e s =
     (if step s = 1 then
        s\<lparr> calls := calls s @ [SetLinearPosition (GetLinearPosition e),
                                 SetAngularPosition (angularSetPoint s)],
             step := 2 \<rparr>
      else if step s = 2 then
        (if isPositioningFinished e then s\<lparr> step := 3, state := FREE \<rparr> else s)
      else s)"

definition calculateLinearPlan :: "env \<Rightarrow> TrajectoryPlanning \<Rightarrow> TrajectoryPlanning" where
  "calculateLinearPlan e s =
     (if step s = 1 then
        s\<lparr> calls := calls s @ [SetLinearPosition (GetLinearPosition e),
                                 SetAngularPosition (angularSetPoint s)],
             step := 2 \<rparr>
      else if step s = 2 then
        (if isPositioningFinished e then s\<lparr> step := 3 \<rparr> else s)
      else if step s = 3 then s\<lparr> step := 4 \<rparr>
      else if step s = 4 then
        s\<lparr> calls := calls s @ [SetLinearPosition (linearSetPoint s),
                                 SetAngularPosition (GetAngularPosition e)],
             step := 5 \<rparr>
      else if step s = 5 then
        (if isPositioningFinished e then s\<lparr> step := 6, state := FREE \<rparr> else s)
      else s)"

text \<open>
  The accumulation loop of \<^verbatim>\<open>updateXYtoLA\<close>:
  \<^verbatim>\<open>for(i=n ; i < (this->XYn-1) ; i++)\<close>, adding the length of the segment between the
  waypoints \<^verbatim>\<open>i\<close> and \<^verbatim>\<open>i-1\<close>. Both \<^verbatim>\<open>i-1\<close> and \<^verbatim>\<open>XYn-1\<close> are unsigned 32-bit.
\<close>

function segments_loop :: "uint32_t \<Rightarrow> TrajectoryPlanning \<Rightarrow> error + TrajectoryPlanning" where
  "segments_loop i s =
     (if i < XYn s - 1 then
        (if in_bounds i \<and> in_bounds (i - 1) then
           (let XX = (X_arr s (unat i) - X_arr s (unat (i - 1))) ^ 2;
                YY = (Y_arr s (unat i) - Y_arr s (unat (i - 1))) ^ 2
            in segments_loop (i + 1) (s\<lparr> linearSetPoint := linearSetPoint s + sqrt (XX + YY) \<rparr>))
         else Inl IndexOutOfBounds)
      else Inr s)"
  by pat_completeness auto
termination
  by (relation "measure (\<lambda>(i, s). unat (XYn s - 1) - unat i)") (simp_all add: unat_less_step)

declare segments_loop.simps [simp del]

definition updateXYtoLA :: "uint32_t \<Rightarrow> env \<Rightarrow> TrajectoryPlanning \<Rightarrow> error + TrajectoryPlanning" where
  "updateXYtoLA k e s =
     (let r = GetRobot e;
          Xm = real_of_int (r_Xmm r) / 1000;
          Ym = real_of_int (r_Ymm r) / 1000;
          Lm = real_of_int (r_Lmm r) / 1000
      in if in_bounds k then
           (let XX = (X_arr s (unat k) - Xm) ^ 2;
                YY = (Y_arr s (unat k) - Ym) ^ 2;
                dX = X_arr s (unat k) - Xm;
                dY = Y_arr s (unat k) - Ym;
                s1 = s\<lparr> linearSetPoint := Lm + sqrt (XX + YY),
                         angularSetPoint := faster_path (atan2f dY dX) (r_O r) \<rparr>;
                s2 = s1\<lparr> linearNextSetPoint := linearSetPoint s1 \<rparr>
            in if 2 \<le> XYn s2 then segments_loop k s2 else Inr s2)
         else Inl IndexOutOfBounds)"

text \<open>
  \<^verbatim>\<open>calculateDrawPlan\<close>. Case 1 of its first \<^verbatim>\<open>switch\<close> has no \<^verbatim>\<open>break\<close> and falls
  into case 2, whose body is \<open>DrawPlan_case2\<close>. The second \<^verbatim>\<open>switch\<close> has only empty
  cases.
\<close>

definition DrawPlan_case2 :: "env \<Rightarrow> TrajectoryPlanning \<Rightarrow> error + TrajectoryPlanning" where
  "DrawPlan_case2 e s =
     and_then (updateXYtoLA (DrawPlan_n s) e s)
       (\<lambda>s1. let currentLinearPosition = GetLinearPosition e
            in if abs_val (linearNextSetPoint s1 - currentLinearPosition) \<le> 0.1 then
                 (let s2 = s1\<lparr> DrawPlan_n := DrawPlan_n s1 + 1, step := 2 \<rparr>;
                      s3 = (if XYn s2 - 1 \<le> DrawPlan_n s2 then s2\<lparr> step := 3 \<rparr> else s2)
                  in updateXYtoLA (DrawPlan_n s3) e s3)
               else Inr s1)"

definition calculateDrawPlan :: "env \<Rightarrow> TrajectoryPlanning \<Rightarrow> error + TrajectoryPlanning" where
  "calculateDrawPlan e s =
     (if step s = 1 then
        (let s1 = s\<lparr> DrawPlan_n := 0, step := 2 \<rparr>
         in and_then (updateXYtoLA (DrawPlan_n s1) e s1) (DrawPlan_case2 e))
      else if step s = 2 then DrawPlan_case2 e s
      else if step s = 3 then
        and_then (updateXYtoLA (DrawPlan_n s) e s)
          (\<lambda>s1. let currentLinearPosition = GetLinearPosition e
               in if abs_val (linearSetPoint s1 - currentLinearPosition) \<le> 0.1
                  then Inr (s1\<lparr> step := 4 \<rparr>) else Inr s1)
      else if step s = 4 then
        and_then (updateXYtoLA (DrawPlan_n s) e s)
          (\<lambda>s1. Inr (s1\<lparr> step := 5, state := FREE \<rparr>))
      else Inr s)"

text \<open>
  \<^verbatim>\<open>calculateStallX\<close> and \<^verbatim>\<open>calculateStallY\<close>: a first \<^verbatim>\<open>switch\<close> advances the step
  (both jack inputs are the constant \<^verbatim>\<open>true\<close>), a second one acts on the new step. The
  tick count they read with \<^verbatim>\<open>getTime\<close> is not used.
\<close>

definition calculateStallX :: "int \<Rightarrow> TrajectoryPlanning \<Rightarrow> TrajectoryPlanning" where
  "calculateStallX mode s =
     (let s1 = (if step s = 1 then s\<lparr> step := 2 \<rparr>
                else if step s = 2 then s\<lparr> step := 3 \<rparr>
                else s)
      in if step s1 = 1 then s1\<lparr> calls := calls s1 @ [SetAngularPosition 0] \<rparr>
         else if step s1 = 3 then s1\<lparr> calls := calls s1 @ [SetXO 0 0] \<rparr>
         else s1)"

definition calculateStallY :: "int \<Rightarrow> TrajectoryPlanning \<Rightarrow> TrajectoryPlanning" where
  "calculateStallY mode s =
     (let s1 = (if step s = 1 then s\<lparr> step := 2 \<rparr>
                else if step s = 2 then s\<lparr> step := 3 \<rparr>
                else s)
      in if step s1 = 1 then s1\<lparr> calls := calls s1 @ [SetAngularPosition (pi / 2)] \<rparr>
         else if step s1 = 3 then s1\<lparr> calls := calls s1 @ [SetYO 0 (pi / 2)] \<rparr>
         else s1)"

definition update :: "env \<Rightarrow> TrajectoryPlanning \<Rightarrow> error + TrajectoryPlanning" where
  "update e s =
     (let s1 = (if state s \<noteq> FREE \<and> state s \<noteq> STOP
                then calculateMove (s\<lparr> status := status s OR push_bit 8 1, finished := False \<rparr>)
                else s\<lparr> status := status s AND NOT (push_bit 8 1), finished := True \<rparr>)
      in case state s1 of
           LINEAR \<Rightarrow> Inr (calculateGoLinear e s1)
         | ANGULAR \<Rightarrow> Inr (calculateGoAngular e s1)
         | FREE \<Rightarrow> Inr (calculateFree s1)
         | STOP \<Rightarrow> Inr (calculateStop s1)
         | KEEP \<Rightarrow> Inr (calculateKeepPosition s1)
         | LINEARPLAN \<Rightarrow> Inr (calculateLinearPlan e s1)
         | DRAWPLAN \<Rightarrow> calculateDrawPlan e s1
         | CURVEPLAN \<Rightarrow> Inr (calculateCurvePlan s1)
         | STALLX \<Rightarrow> Inr (calculateStallX 1 s1)
         | STALLY \<Rightarrow> Inr (calculateStallY 1 s1))"

text \<open>\<^verbatim>\<open>TrajectoryPlanning::Compute\<close> sets status bit 0 and updates; it does not read \<^verbatim>\<open>period\<close>.\<close>

definition TrajectoryPlanning_Compute ::
  "float32_t \<Rightarrow> env \<Rightarrow> TrajectoryPlanning \<Rightarrow> error + TrajectoryPlanning" where
  "TrajectoryPlanning_Compute period e s = update e (s\<lparr> status := status s OR push_bit 0 1 \<rparr>)"

text \<open>Successive update ticks, one per element of the list of collaborator answers.\<close>

fun ticks :: "env list \<Rightarrow> TrajectoryPlanning \<Rightarrow> error + TrajectoryPlanning" where
  "ticks [] s = Inr s"
| "ticks (e # es) s = (case update e s of Inl err \<Rightarrow> Inl err | Inr s1 \<Rightarrow> ticks es s1)"

section \<open>The motion scheduler\<close>

text \<open>
  \<^verbatim>\<open>cmd_t\<close> is declared in MotionControl.hpp, which is not among the files modelled here.
  \<^verbatim>\<open>Compute\<close> reads the tag \<^verbatim>\<open>cmd.id\<close> and, per tag, one member of the union
  \<^verbatim>\<open>cmd.data\<close>; every other tag is the \<^verbatim>\<open>default\<close> branch.
\<close>

datatype cmd_t =
  CMD_ID_GOLIN float32_t
  | CMD_ID_GOANG float32_t
  | CMD_ID_GOTO float32_t float32_t
  | CMD_ID_OTHER

text \<open>The calls \<^verbatim>\<open>FBMotionControl::Compute\<close> makes, in the order it makes them.\<close>

datatype mc_call =
  telAv_Detect
  | Stop_call
  | xQueueReceive
  | tp_Compute float32_t
  | pc_Compute float32_t

text \<open>
  The data members of class \<^verbatim>\<open>FBMotionControl\<close> that \<^verbatim>\<open>Compute\<close> uses, and the static
  \<^verbatim>\<open>localTime\<close> of \<^verbatim>\<open>Compute\<close>. The queue \<^verbatim>\<open>Qorders\<close> is a list, oldest order first.
\<close>

record FBMotionControl =
  mc_status :: uint16_t
  enable :: bool
  safeguard :: bool
  localTime :: uint32_t
  Qorders :: "cmd_t list"
  tp :: TrajectoryPlanning

definition MC_TASK_PERIOD_MS :: uint32_t where
  "MC_TASK_PERIOD_MS = 5"

definition SENS_TASK_PERIOD_MS :: uint32_t where
  "SENS_TASK_PERIOD_MS = 200"

definition TP_TASK_PERIOD_MS :: uint32_t where
  "TP_TASK_PERIOD_MS = 200"

definition PC_TASK_PERIOD_MS :: uint32_t where
  "PC_TASK_PERIOD_MS = 100"

text \<open>
  Modelled from the spec: \<^verbatim>\<open>FBMotionControl::Stop\<close>, which \<^verbatim>\<open>Compute\<close> calls and
  MotionControl.cpp does not define. The spec has the scheduler "immediately issue Stop to
  the Trajectory State Machine".
\<close>

definition FBMotionControl_Stop :: "FBMotionControl \<Rightarrow> FBMotionControl" where
  "FBMotionControl_Stop s = s\<lparr> tp := stop (tp s) \<rparr>"

text \<open>The first part of \<^verbatim>\<open>Compute\<close>: the three status bits, then \<^verbatim>\<open>localTime\<close>.\<close>

definition refresh_status :: "FBMotionControl \<Rightarrow> FBMotionControl" where
  "refresh_status s =
     (let s1 = (if enable s then s\<lparr> mc_status := mc_status s OR push_bit 0 1 \<rparr>
                else s\<lparr> mc_status := mc_status s AND NOT (push_bit 0 1) \<rparr>);
          s2 = (if safeguard s1 then s1\<lparr> mc_status := mc_status s1 OR push_bit 1 1 \<rparr>
                else s1\<lparr> mc_status := mc_status s1 AND NOT (push_bit 1 1) \<rparr>);
          s3 = (if isFinished (tp s2) then s2\<lparr> mc_status := mc_status s2 OR push_bit 8 1 \<rparr>
                else s2\<lparr> mc_status := mc_status s2 AND NOT (push_bit 8 1) \<rparr>)
      in s3\<lparr> localTime := localTime s3 + MC_TASK_PERIOD_MS \<rparr>)"

text \<open>The obstacle check, run when \<^verbatim>\<open>localTime % SENS_TASK_PERIOD_MS\<close> is 0.\<close>

definition obstacle_check :: "bool \<Rightarrow> FBMotionControl \<Rightarrow> mc_call list \<times> FBMotionControl" where
  "obstacle_check detect s =
     (if localTime s mod SENS_TASK_PERIOD_MS = 0 then
        (if detect then ([telAv_Detect, Stop_call], FBMotionControl_Stop s)
         else ([telAv_Detect], s))
      else ([], s))"

text \<open>The \<^verbatim>\<open>switch (cmd.id)\<close>.\<close>

definition issue :: "cmd_t \<Rightarrow> env \<Rightarrow> TrajectoryPlanning \<Rightarrow> TrajectoryPlanning" where
  "issue cmd e t =
     (case cmd of
        CMD_ID_GOLIN d \<Rightarrow> goLinear d e t
      | CMD_ID_GOANG a \<Rightarrow> goAngular a t
      | CMD_ID_GOTO x y \<Rightarrow> gotoXY x y e t
      | CMD_ID_OTHER \<Rightarrow> t)"

text \<open>
  "Pull orders one by one": \<^verbatim>\<open>xQueueReceive\<close> with a zero timeout takes the oldest order
  of a non-empty queue and fails on an empty one.
\<close>

definition pull_order :: "env \<Rightarrow> FBMotionControl \<Rightarrow> mc_call list \<times> FBMotionControl" where
  "pull_order e s =
     (if isFinished (tp s) then
        (case Qorders s of
           [] \<Rightarrow> ([xQueueReceive], s)
         | cmd # rest \<Rightarrow> ([xQueueReceive], s\<lparr> Qorders := rest, tp := issue cmd e (tp s) \<rparr>))
      else ([], s))"

text \<open>
  The position servo's own step: the call is recorded, the servo is not part of the model
  (its answers are inputs of the ticks).
\<close>

definition schedule_pc :: "float32_t \<Rightarrow> FBMotionControl \<Rightarrow> mc_call list" where
  "schedule_pc period s =
     (if localTime s mod PC_TASK_PERIOD_MS = 0
      then [pc_Compute ((period * real (unat PC_TASK_PERIOD_MS)) / real (unat MC_TASK_PERIOD_MS))]
      else [])"

text \<open>
  \<^verbatim>\<open>FBMotionControl::Compute\<close>: the calls made, and the state it leaves or the reason why
  it does not return. \<open>detect\<close> is what the forward telemeter answers, \<open>e\<close> what the
  odometry and the servo answer during this call.
\<close>

definition FBMotionControl_Compute ::
  "float32_t \<Rightarrow> bool \<Rightarrow> env \<Rightarrow> FBMotionControl \<Rightarrow> mc_call list \<times> (error + FBMotionControl)" where
  "FBMotionControl_Compute period detect e s =
     (let s1 = refresh_status s
      in if enable s1 = False then ([], Inr s1)
         else
           (let (l2, s2) = obstacle_check detect s1
            in if localTime s2 mod TP_TASK_PERIOD_MS = 0 then
                 (let (l3, s3) = pull_order e s2;
                      p = (period * real (unat TP_TASK_PERIOD_MS)) / real (unat MC_TASK_PERIOD_MS)
                  in case TrajectoryPlanning_Compute p e (tp s3) of
                       Inl err \<Rightarrow> (l2 @ l3 @ [tp_Compute p], Inl err)
                     | Inr t \<Rightarrow>
                         (l2 @ l3 @ [tp_Compute p] @ schedule_pc period s3, Inr (s3\<lparr> tp := t \<rparr>)))
               else (l2 @ schedule_pc period s2, Inr s2)))"

section \<open>Notions used in the statements\<close>


text \<open>
  The sum that C5 describes, in the spec's words: the straight-line lengths of the waypoint
  segments after waypoint \<open>k\<close>, that is \<open>(k, k+1)\<close>, \<open>(k+1, k+2)\<close>, up to the final
  waypoint \<open>XYn - 1\<close>.
\<close>

definition subsequent_segments :: "nat \<Rightarrow> TrajectoryPlanning \<Rightarrow> float32_t" where
  "subsequent_segments k s =
     (\<Sum>j = k ..< unat (XYn s) - 1.
        sqrt ((X_arr s (Suc j) - X_arr s j) ^ 2 + (Y_arr s (Suc j) - Y_arr s j) ^ 2))"

section \<open>Scenarios\<close>

text \<open>A robot at rest at the origin, heading 0, whose servo has not arrived; the same with
  the servo arrived; and a freshly constructed planner.\<close>

definition still :: env where
  "still = \<lparr> GetRobot = \<lparr> r_Xmm = 0, r_Ymm = 0, r_Lmm = 0, r_L = 0, r_O = 0 \<rparr>,
             GetLinearPosition = 0, GetAngularPosition = 0, isPositioningFinished = False \<rparr>"

definition arrived :: env where
  "arrived = still\<lparr> isPositioningFinished := True \<rparr>"

definition no_waypoint :: "nat \<Rightarrow> float32_t" where
  "no_waypoint i = 0"

definition fresh :: TrajectoryPlanning where
  "fresh = TrajectoryPlanning_new no_waypoint no_waypoint"


text \<open>A path of three waypoints \<open>(0,0)\<close>, \<open>(1,0)\<close>, \<open>(3,0)\<close> with the cursor on the second.\<close>

definition three_waypoints :: TrajectoryPlanning where
  "three_waypoints =
     fresh\<lparr> X_arr := no_waypoint(1 := 1, 2 := 3), XYn := 3, state := DRAWPLAN, step := 2,
            DrawPlan_n := 1 \<rparr>"


text \<open>A planner polling the arrival of a linear order, and two scheduler states one base
  period before a tick of the 200 ms groups: one with that planner, one idle with an order
  queued.\<close>

definition moving :: TrajectoryPlanning where
  "moving = fresh\<lparr> state := LINEAR, step := 2, finished := False \<rparr>"

definition busy_scheduler :: FBMotionControl where
  "busy_scheduler = \<lparr> mc_status = 0, enable = True, safeguard = True, localTime = 195,
                      Qorders = [CMD_ID_GOANG 1], tp = moving \<rparr>"

definition idle_scheduler :: FBMotionControl where
  "idle_scheduler = \<lparr> mc_status = 0, enable = True, safeguard = True, localTime = 195,
                      Qorders = [CMD_ID_GOLIN 1, CMD_ID_GOANG 1], tp = fresh \<rparr>"

section \<open>What the path functions leave unchanged\<close>

lemma segments_loop_frame:
  "segments_loop i s = Inr s' \<Longrightarrow> \<exists>v. s' = s\<lparr> linearSetPoint := v \<rparr>"
proof (induction i s rule: segments_loop.induct)
  case (1 i s)
  show ?case
  proof (cases "i < XYn s - 1")
    case False
    with "1.prems" have "s' = s"
      by (simp add: segments_loop.simps [of i s])
    then have "s' = s\<lparr> linearSetPoint := linearSetPoint s \<rparr>"
      by simp
    then show ?thesis ..
  next
    case True
    show ?thesis
    proof (cases "in_bounds i \<and> in_bounds (i - 1)")
      case False
      with True "1.prems" show ?thesis
        by (simp add: segments_loop.simps [of i s])
    next
      case inb: True
      define XX where "XX = (X_arr s (unat i) - X_arr s (unat (i - 1))) ^ 2"
      define YY where "YY = (Y_arr s (unat i) - Y_arr s (unat (i - 1))) ^ 2"
      define s1 where "s1 = s\<lparr> linearSetPoint := linearSetPoint s + sqrt (XX + YY) \<rparr>"
      from True inb "1.prems" have rec: "segments_loop (i + 1) s1 = Inr s'"
        by (simp add: segments_loop.simps [of i s] Let_def s1_def XX_def YY_def)
      from "1.IH" [OF True inb XX_def YY_def rec [unfolded s1_def]]
      obtain v where "s' = s\<lparr> linearSetPoint := linearSetPoint s + sqrt (XX + YY) \<rparr>\<lparr> linearSetPoint := v \<rparr>"
        by blast
      then have "s' = s\<lparr> linearSetPoint := v \<rparr>"
        by simp
      then show ?thesis ..
    qed
  qed
qed

lemma updateXYtoLA_frame:
  assumes "updateXYtoLA k e s = Inr s'"
  shows "\<exists>a b c. s' = s\<lparr> linearSetPoint := a, linearNextSetPoint := b, angularSetPoint := c \<rparr>"
    and "in_bounds k"
    and "linearNextSetPoint s' =
           real_of_int (r_Lmm (GetRobot e)) / 1000
           + sqrt ((X_arr s (unat k) - real_of_int (r_Xmm (GetRobot e)) / 1000) ^ 2
                 + (Y_arr s (unat k) - real_of_int (r_Ymm (GetRobot e)) / 1000) ^ 2)"
proof -
  define r where "r = GetRobot e"
  define Lm where "Lm = real_of_int (r_Lmm r) / 1000"
  define a0 where "a0 = Lm + sqrt ((X_arr s (unat k) - real_of_int (r_Xmm r) / 1000) ^ 2
                                + (Y_arr s (unat k) - real_of_int (r_Ymm r) / 1000) ^ 2)"
  define c0 where "c0 = faster_path (atan2f (Y_arr s (unat k) - real_of_int (r_Ymm r) / 1000)
                                           (X_arr s (unat k) - real_of_int (r_Xmm r) / 1000)) (r_O r)"
  define s2 where "s2 = s\<lparr> linearSetPoint := a0, angularSetPoint := c0, linearNextSetPoint := a0 \<rparr>"
  from assms have inb: "in_bounds k"
    by (simp add: updateXYtoLA_def Let_def split: if_splits)
  from assms inb have res: "(if 2 \<le> XYn s then segments_loop k s2 else Inr s2) = Inr s'"
    by (simp add: updateXYtoLA_def Let_def s2_def a0_def c0_def Lm_def r_def split: if_splits)
  have "\<exists>v. s' = s2\<lparr> linearSetPoint := v \<rparr>"
  proof (cases "2 \<le> XYn s")
    case True
    with res show ?thesis
      by (simp add: segments_loop_frame)
  next
    case False
    with res have "s' = s2\<lparr> linearSetPoint := linearSetPoint s2 \<rparr>"
      by simp
    then show ?thesis ..
  qed
  then obtain v where "s' = s2\<lparr> linearSetPoint := v \<rparr>" ..
  then have eq: "s' = s\<lparr> linearSetPoint := v, linearNextSetPoint := a0, angularSetPoint := c0 \<rparr>"
    by (simp add: s2_def)
  then show "\<exists>a b c. s' = s\<lparr> linearSetPoint := a, linearNextSetPoint := b, angularSetPoint := c \<rparr>"
    by blast
  show "in_bounds k"
    by (fact inb)
  from eq show "linearNextSetPoint s' =
           real_of_int (r_Lmm (GetRobot e)) / 1000
           + sqrt ((X_arr s (unat k) - real_of_int (r_Xmm (GetRobot e)) / 1000) ^ 2
                 + (Y_arr s (unat k) - real_of_int (r_Ymm (GetRobot e)) / 1000) ^ 2)"
    by (simp add: a0_def Lm_def r_def)
qed

lemma updateXYtoLA_keeps:
  assumes "updateXYtoLA k e s = Inr s'"
  shows "finished s' = finished s" and "state s' = state s" and "step s' = step s"
    and "DrawPlan_n s' = DrawPlan_n s" and "XYn s' = XYn s"
    and "X_arr s' = X_arr s" and "Y_arr s' = Y_arr s"
    and "status s' = status s" and "calls s' = calls s"
  using updateXYtoLA_frame(1) [OF assms] by auto

lemma DrawPlan_case2_keeps:
  assumes "DrawPlan_case2 e s = Inr s'"
  shows "finished s' = finished s" and "state s' = state s" and "XYn s' = XYn s"
    and "X_arr s' = X_arr s" and "Y_arr s' = Y_arr s"
    and "status s' = status s" and "calls s' = calls s"
proof -
  from assms obtain s1 where u1: "updateXYtoLA (DrawPlan_n s) e s = Inr s1"
    by (cases "updateXYtoLA (DrawPlan_n s) e s") (simp_all add: DrawPlan_case2_def and_then_def)
  note k1 = updateXYtoLA_keeps [OF u1]
  define s2 where "s2 = s1\<lparr> DrawPlan_n := DrawPlan_n s1 + 1, step := 2 \<rparr>"
  define s3 where "s3 = (if XYn s2 - 1 \<le> DrawPlan_n s2 then s2\<lparr> step := 3 \<rparr> else s2)"
  from assms u1 have "s' = s1 \<or> updateXYtoLA (DrawPlan_n s3) e s3 = Inr s'"
    by (simp add: DrawPlan_case2_def and_then_def Let_def s3_def s2_def split: if_splits)
  then have "finished s' = finished s \<and> state s' = state s \<and> XYn s' = XYn s
     \<and> X_arr s' = X_arr s \<and> Y_arr s' = Y_arr s \<and> status s' = status s \<and> calls s' = calls s"
  proof
    assume "s' = s1"
    with k1 show ?thesis by simp
  next
    assume "updateXYtoLA (DrawPlan_n s3) e s3 = Inr s'"
    from updateXYtoLA_keeps [OF this] k1 show ?thesis
      by (simp add: s3_def s2_def)
  qed
  then show "finished s' = finished s" and "state s' = state s" and "XYn s' = XYn s"
    and "X_arr s' = X_arr s" and "Y_arr s' = Y_arr s"
    and "status s' = status s" and "calls s' = calls s"
    by simp_all
qed

lemma calculateDrawPlan_keeps:
  assumes "calculateDrawPlan e s = Inr s'"
  shows "finished s' = finished s" and "state s' = state s \<or> state s' = FREE"
    and "XYn s' = XYn s" and "X_arr s' = X_arr s" and "Y_arr s' = Y_arr s"
    and "status s' = status s" and "calls s' = calls s"
proof -
  have "finished s' = finished s \<and> (state s' = state s \<or> state s' = FREE) \<and> XYn s' = XYn s
     \<and> X_arr s' = X_arr s \<and> Y_arr s' = Y_arr s \<and> status s' = status s \<and> calls s' = calls s"
  proof -
    consider (one) "step s = 1" | (two) "step s = 2" | (three) "step s = 3" | (four) "step s = 4"
      | (other) "step s \<noteq> 1" "step s \<noteq> 2" "step s \<noteq> 3" "step s \<noteq> 4"
      by blast
    then show ?thesis
    proof cases
      case one
      define s0 where "s0 = s\<lparr> DrawPlan_n := 0, step := 2 \<rparr>"
      from assms one obtain s1 where u1: "updateXYtoLA (DrawPlan_n s0) e s0 = Inr s1"
        and c2: "DrawPlan_case2 e s1 = Inr s'"
        by (cases "updateXYtoLA (DrawPlan_n s0) e s0")
           (simp_all add: calculateDrawPlan_def and_then_def Let_def s0_def)
      from updateXYtoLA_keeps [OF u1] DrawPlan_case2_keeps [OF c2] show ?thesis
        by (simp add: s0_def)
    next
      case two
      with assms have "DrawPlan_case2 e s = Inr s'"
        by (simp add: calculateDrawPlan_def)
      from DrawPlan_case2_keeps [OF this] show ?thesis
        by simp
    next
      case three
      with assms obtain s1 where u1: "updateXYtoLA (DrawPlan_n s) e s = Inr s1"
        and r: "s' = s1\<lparr> step := 4 \<rparr> \<or> s' = s1"
        by (cases "updateXYtoLA (DrawPlan_n s) e s")
           (auto simp: calculateDrawPlan_def and_then_def Let_def split: if_splits)
      from updateXYtoLA_keeps [OF u1] r show ?thesis
        by auto
    next
      case four
      with assms obtain s1 where u1: "updateXYtoLA (DrawPlan_n s) e s = Inr s1"
        and r: "s' = s1\<lparr> step := 5, state := FREE \<rparr>"
        by (cases "updateXYtoLA (DrawPlan_n s) e s")
           (auto simp: calculateDrawPlan_def and_then_def Let_def split: if_splits)
      from updateXYtoLA_keeps [OF u1] r show ?thesis
        by auto
    next
      case other
      with assms have "s' = s"
        by (simp add: calculateDrawPlan_def)
      then show ?thesis by simp
    qed
  qed
  then show "finished s' = finished s" and "state s' = state s \<or> state s' = FREE"
    and "XYn s' = XYn s" and "X_arr s' = X_arr s" and "Y_arr s' = Y_arr s"
    and "status s' = status s" and "calls s' = calls s"
    by simp_all
qed

lemma update_finished:
  assumes "update e s = Inr s'"
  shows "finished s' = (state s = FREE \<or> state s = STOP)"
  using assms
  by (cases "state s")
     (auto simp: update_def Let_def calculateMove_def calculateGoLinear_def calculateGoAngular_def
        calculateFree_def calculateStop_def calculateKeepPosition_def calculateLinearPlan_def
        calculateCurvePlan_def calculateStallX_def calculateStallY_def
        dest!: calculateDrawPlan_keeps(1) split: if_splits)

lemma update_idle:
  assumes "state s = FREE \<or> state s = STOP"
  shows "update e s = Inr (s\<lparr> status := status s AND NOT (push_bit 8 1), finished := True,
                               calls := calls s @ [Disable] \<rparr>)"
  using assms by (auto simp: update_def Let_def calculateFree_def calculateStop_def)

section \<open>Construction\<close>

lemma ticks_idle:
  "state s = FREE \<Longrightarrow> step s = 0 \<Longrightarrow> \<exists>s'. ticks es s = Inr s' \<and> state s' = FREE \<and> step s' = 0"
proof (induction es arbitrary: s)
  case Nil
  then show ?case by simp
next
  case (Cons e es)
  define s1 where "s1 = s\<lparr> status := status s AND NOT (push_bit 8 1), finished := True,
                               calls := calls s @ [Disable] \<rparr>"
  from Cons.prems have u: "update e s = Inr s1"
    by (simp add: update_idle s1_def)
  have "state s1 = FREE" and "step s1 = 0"
    using Cons.prems by (simp_all add: s1_def)
  from Cons.IH [OF this] u show ?case
    by simp
qed

text \<open>
  C10. Right after construction the mode is FREE, \<open>isFinished\<close> answers true, the status
  word is 0 and \<open>GetStep\<close> answers 0. Any number of update ticks without an order returns,
  and leaves the mode FREE and the step at 0; each order operation that returns a state
  unconditionally sets the step to 1.
\<close>

theorem construction_state:
  "state (TrajectoryPlanning_new uX uY) = FREE
   \<and> isFinished (TrajectoryPlanning_new uX uY)
   \<and> GetStatus (TrajectoryPlanning_new uX uY) = 0
   \<and> GetStep (TrajectoryPlanning_new uX uY) = 0
   \<and> (\<exists>s'. ticks es (TrajectoryPlanning_new uX uY) = Inr s' \<and> state s' = FREE \<and> GetStep s' = 0)
   \<and> GetStep (goLinear d e s) = 1 \<and> GetStep (goAngular a s) = 1 \<and> GetStep (freewheel s) = 1
   \<and> GetStep (stop s) = 1 \<and> GetStep (gotoXY x y e s) = 1
   \<and> GetStep (stallX m e s) = 1 \<and> GetStep (stallY m e s) = 1"
proof -
  have "state (TrajectoryPlanning_new uX uY) = FREE" and "step (TrajectoryPlanning_new uX uY) = 0"
    by (simp_all add: TrajectoryPlanning_new_def)
  from ticks_idle [OF this, of es]
  have "\<exists>s'. ticks es (TrajectoryPlanning_new uX uY) = Inr s' \<and> state s' = FREE \<and> GetStep s' = 0"
    by (auto simp: GetStep_def)
  moreover have "state (TrajectoryPlanning_new uX uY) = FREE
   \<and> isFinished (TrajectoryPlanning_new uX uY)
   \<and> GetStatus (TrajectoryPlanning_new uX uY) = 0
   \<and> GetStep (TrajectoryPlanning_new uX uY) = 0"
    by (simp add: TrajectoryPlanning_new_def isFinished_def GetStatus_def GetStep_def)
  moreover have "GetStep (goLinear d e s) = 1 \<and> GetStep (goAngular a s) = 1 \<and> GetStep (freewheel s) = 1
   \<and> GetStep (stop s) = 1 \<and> GetStep (gotoXY x y e s) = 1
   \<and> GetStep (stallX m e s) = 1 \<and> GetStep (stallY m e s) = 1"
    by (simp add: GetStep_def goLinear_def goAngular_def freewheel_def stop_def gotoXY_def
        stallX_def stallY_def Let_def)
  ultimately show ?thesis
    by blast
qed

section \<open>The finished flag\<close>

lemma pushXY_loop_finished:
  "pushXY_loop X Y k i s = Inr s' \<Longrightarrow> finished s' = finished s"
proof (induction X Y k i s rule: pushXY_loop.induct)
  case (1 X Y k i s)
  show ?case
  proof (cases "i < k")
    case False
    with "1.prems" show ?thesis
      by (simp add: pushXY_loop.simps [of X Y k i s])
  next
    case True
    show ?thesis
    proof (cases "in_bounds i \<and> unat i < length X \<and> unat i < length Y")
      case False
      with True "1.prems" show ?thesis
        by (simp add: pushXY_loop.simps [of X Y k i s])
    next
      case ok: True
      with True "1.prems" have "pushXY_loop X Y k (i + 1)
             (s\<lparr> X_arr := (X_arr s)(unat i := X ! unat i),
                  Y_arr := (Y_arr s)(unat i := Y ! unat i) \<rparr>) = Inr s'"
        by (simp add: pushXY_loop.simps [of X Y k i s])
      from "1.IH" [OF True ok this] show ?thesis
        by simp
    qed
  qed
qed

lemma pushXY_finished:
  "pushXY X Y k s = Inr s' \<Longrightarrow> finished s' = finished s"
  by (cases "pushXY_loop X Y k 0 s")
     (auto simp: pushXY_def and_then_def split: if_splits dest: pushXY_loop_finished)

text \<open>
  C4, as the code has it. The flag is refreshed at the start of an update tick, from the
  mode the tick finds: after a tick that returns, \<open>finished\<close> holds exactly when the mode
  before the tick was FREE or STOP. No order operation writes the flag.
\<close>

theorem finished_follows_mode_at_tick:
  "(\<forall>s'. update e s = Inr s' \<longrightarrow> finished s' = (state s = FREE \<or> state s = STOP))
   \<and> finished (goLinear d e s) = finished s
   \<and> finished (goAngular a s) = finished s
   \<and> finished (freewheel s) = finished s
   \<and> finished (stop s) = finished s
   \<and> finished (gotoXY x y e s) = finished s
   \<and> finished (stallX m e s) = finished s
   \<and> finished (stallY m e s) = finished s
   \<and> (\<forall>s'. pushXY X Y k s = Inr s' \<longrightarrow> finished s' = finished s)"
  by (simp add: update_finished pushXY_finished goLinear_def goAngular_def freewheel_def stop_def
      gotoXY_def stallX_def stallY_def Let_def)

lemma update_goLinear_first:
  "update e1 (goLinear d e s) =
     Inr (s\<lparr> linearSetPoint := GetLinearPosition e + d, state := LINEAR, step := 2,
             status := status s OR push_bit 8 1, finished := False,
             calls := calls s @ [Enable, SetLinearPosition (GetLinearPosition e + d),
                                  SetAngularPosition (GetAngularPosition e1)] \<rparr>)"
  by (simp add: update_def goLinear_def Let_def calculateMove_def calculateGoLinear_def)

theorem finished_follows_mode_at_tick_witness:
  "\<exists>s'. update still (goLinear 1 still fresh) = Inr s' \<and> finished s' = False
     \<and> state (goLinear 1 still fresh) = LINEAR"
proof -
  obtain s' where u: "update still (goLinear 1 still fresh) = Inr s'"
    by (simp add: update_goLinear_first)
  have m: "state (goLinear 1 still fresh) = LINEAR"
    by (simp add: goLinear_def Let_def)
  from finished_follows_mode_at_tick [of still "goLinear 1 still fresh"] u m
  have "finished s' = False"
    by simp
  with u m show ?thesis
    by blast
qed

text \<open>
  The equivalence of C4 fails right after an order is issued to a fresh planner: the mode is
  LINEAR and the flag still says finished.
\<close>

theorem finished_iff_idle_counterexample:
  "\<not> (finished (goLinear 1 still fresh)
        \<longleftrightarrow> state (goLinear 1 still fresh) = FREE \<or> state (goLinear 1 still fresh) = STOP)"
  by (simp add: goLinear_def Let_def fresh_def TrajectoryPlanning_new_def)

section \<open>A linear order\<close>

lemma update_LINEAR_poll:
  assumes "state s = LINEAR" and "step s = 2"
  shows "update e s =
     Inr (if isPositioningFinished e
          then s\<lparr> status := status s OR push_bit 8 1, finished := False,
                   calls := calls s @ [Enable], step := 3, state := FREE \<rparr>
          else s\<lparr> status := status s OR push_bit 8 1, finished := False,
                   calls := calls s @ [Enable] \<rparr>)"
  using assms by (simp add: update_def Let_def calculateMove_def calculateGoLinear_def)

lemma ticks_from_idle:
  "state s = FREE \<or> state s = STOP \<Longrightarrow> \<exists>s'. ticks es s = Inr s'"
proof (induction es arbitrary: s)
  case Nil
  then show ?case by simp
next
  case (Cons e es)
  define s1 where "s1 = s\<lparr> status := status s AND NOT (push_bit 8 1), finished := True,
                               calls := calls s @ [Disable] \<rparr>"
  from Cons.prems have u: "update e s = Inr s1"
    by (simp add: update_idle s1_def)
  have "state s1 = FREE \<or> state s1 = STOP"
    using Cons.prems by (simp add: s1_def)
  from Cons.IH [OF this] u show ?case
    by simp
qed

lemma ticks_LINEAR_poll:
  "state s = LINEAR \<Longrightarrow> step s = 2 \<Longrightarrow> \<not> finished s \<Longrightarrow>
     \<exists>s'. ticks es s = Inr s'
        \<and> (finished s' \<longrightarrow> (\<exists>e'\<in>set (butlast es). isPositioningFinished e'))"
proof (induction es arbitrary: s)
  case Nil
  then show ?case by simp
next
  case (Cons e es)
  show ?case
  proof (cases "isPositioningFinished e")
    case True
    define s1 where "s1 = s\<lparr> status := status s OR push_bit 8 1, finished := False,
                   calls := calls s @ [Enable], step := 3, state := FREE \<rparr>"
    from Cons.prems True have u: "update e s = Inr s1"
      by (simp add: update_LINEAR_poll s1_def)
    have "state s1 = FREE \<or> state s1 = STOP"
      by (simp add: s1_def)
    from ticks_from_idle [OF this] obtain s' where t: "ticks es s1 = Inr s'"
      by blast
    have "finished s' \<longrightarrow> es \<noteq> []"
      using t by (auto simp: s1_def)
    with True have "finished s' \<longrightarrow> (\<exists>e'\<in>set (butlast (e # es)). isPositioningFinished e')"
      by auto
    with u t show ?thesis
      by simp
  next
    case False
    define s1 where "s1 = s\<lparr> status := status s OR push_bit 8 1, finished := False,
                   calls := calls s @ [Enable] \<rparr>"
    from Cons.prems False have u: "update e s = Inr s1"
      by (simp add: update_LINEAR_poll s1_def)
    have "state s1 = LINEAR" and "step s1 = 2" and "\<not> finished s1"
      using Cons.prems by (simp_all add: s1_def)
    from Cons.IH [OF this] obtain s' where t: "ticks es s1 = Inr s'"
      and f: "finished s' \<longrightarrow> (\<exists>e'\<in>set (butlast es). isPositioningFinished e')"
      by blast
    from f have "finished s' \<longrightarrow> (\<exists>e'\<in>set (butlast (e # es)). isPositioningFinished e')"
      by (cases es) auto
    with u t show ?thesis
      by simp
  qed
qed

text \<open>
  C7, as the code has it. \<open>goLinear d\<close> stores the current linear position plus \<open>d\<close> and
  does not write the flag. The first update tick after the issue returns with the flag
  false. After that tick and any further ticks \<open>es\<close>, the flag is true only if the
  arrival observer answered true during one of the ticks \<open>es\<close> other than the last.
\<close>

theorem goLinear_setpoint_and_flag:
  "linearSetPoint (goLinear d e s) = GetLinearPosition e + d
   \<and> isFinished (goLinear d e s) = isFinished s
   \<and> (\<exists>s1. update e1 (goLinear d e s) = Inr s1 \<and> \<not> isFinished s1)
   \<and> (\<exists>s'. ticks (e1 # es) (goLinear d e s) = Inr s'
          \<and> (isFinished s' \<longrightarrow> (\<exists>e'\<in>set (butlast es). isPositioningFinished e')))"
proof -
  define s1 where "s1 = s\<lparr> linearSetPoint := GetLinearPosition e + d, state := LINEAR, step := 2,
             status := status s OR push_bit 8 1, finished := False,
             calls := calls s @ [Enable, SetLinearPosition (GetLinearPosition e + d),
                                  SetAngularPosition (GetAngularPosition e1)] \<rparr>"
  have u: "update e1 (goLinear d e s) = Inr s1"
    by (simp add: update_goLinear_first s1_def)
  have "state s1 = LINEAR" and "step s1 = 2" and nf: "\<not> finished s1"
    by (simp_all add: s1_def)
  from ticks_LINEAR_poll [OF this, of es] obtain s' where t: "ticks es s1 = Inr s'"
    and f: "finished s' \<longrightarrow> (\<exists>e'\<in>set (butlast es). isPositioningFinished e')"
    by blast
  have a: "linearSetPoint (goLinear d e s) = GetLinearPosition e + d"
    and b: "isFinished (goLinear d e s) = isFinished s"
    by (simp_all add: goLinear_def Let_def isFinished_def)
  from u nf have c: "\<exists>s1. update e1 (goLinear d e s) = Inr s1 \<and> \<not> isFinished s1"
    by (simp add: isFinished_def)
  from u t f have "\<exists>s'. ticks (e1 # es) (goLinear d e s) = Inr s'
          \<and> (isFinished s' \<longrightarrow> (\<exists>e'\<in>set (butlast es). isPositioningFinished e'))"
    by (simp add: isFinished_def)
  with a b c show ?thesis
    by blast
qed

lemma ticks_arrival_scenario:
  "\<exists>s'. ticks [still, arrived, still] (goLinear 1 still fresh) = Inr s' \<and> isFinished s'"
  by (simp add: update_goLinear_first update_LINEAR_poll update_idle arrived_def still_def
      isFinished_def)

theorem goLinear_setpoint_and_flag_witness:
  "\<exists>s'. ticks [still, arrived, still] (goLinear 1 still fresh) = Inr s' \<and> isFinished s'
     \<and> (\<exists>e'\<in>set (butlast [arrived, still]). isPositioningFinished e')"
proof -
  from ticks_arrival_scenario obtain s' where
    t: "ticks [still, arrived, still] (goLinear 1 still fresh) = Inr s'" and f: "isFinished s'"
    by blast
  from goLinear_setpoint_and_flag [of 1 still fresh still "[arrived, still]"] t f
  have "\<exists>e'\<in>set (butlast [arrived, still]). isPositioningFinished e'"
    by auto
  with t f show ?thesis
    by blast
qed

text \<open>
  C7 as stated fails at the issue itself: on a fresh planner \<open>isFinished\<close> still answers
  true right after \<open>goLinear\<close>.
\<close>

theorem goLinear_isFinished_counterexample:
  "isFinished (goLinear 1 still fresh)"
  by (simp add: goLinear_def Let_def isFinished_def fresh_def TrajectoryPlanning_new_def)

section \<open>A path order\<close>

lemma unat_succ_below: "(i :: uint32_t) < k \<Longrightarrow> unat (i + 1) = Suc (unat i)"
  by unat_arith

lemma pushXY_loop_copies:
  "k < 10 \<Longrightarrow> unat k \<le> length X \<Longrightarrow> unat k \<le> length Y \<Longrightarrow>
     \<exists>s'. pushXY_loop X Y k i s = Inr s'
        \<and> (\<forall>j. X_arr s' j = (if unat i \<le> j \<and> j < unat k then X ! j else X_arr s j))
        \<and> (\<forall>j. Y_arr s' j = (if unat i \<le> j \<and> j < unat k then Y ! j else Y_arr s j))"
proof (induction X Y k i s rule: pushXY_loop.induct)
  case (1 X Y k i s)
  show ?case
  proof (cases "i < k")
    case False
    then have "unat k \<le> unat i"
      by (simp add: word_less_nat_alt)
    with False show ?thesis
      by (simp add: pushXY_loop.simps [of X Y k i s])
  next
    case True
    then have lt: "unat i < unat k"
      by (simp add: word_less_nat_alt)
    from "1.prems"(1) have "unat k < 10"
      by (simp add: word_less_nat_alt)
    with lt "1.prems" have ok: "in_bounds i \<and> unat i < length X \<and> unat i < length Y"
      by (simp add: in_bounds_def)
    define s1 where "s1 = s\<lparr> X_arr := (X_arr s)(unat i := X ! unat i),
                             Y_arr := (Y_arr s)(unat i := Y ! unat i) \<rparr>"
    from "1.IH" [OF True ok "1.prems"] obtain s' where
      r: "pushXY_loop X Y k (i + 1) s1 = Inr s'"
      and x: "\<forall>j. X_arr s' j = (if unat (i + 1) \<le> j \<and> j < unat k then X ! j else X_arr s1 j)"
      and y: "\<forall>j. Y_arr s' j = (if unat (i + 1) \<le> j \<and> j < unat k then Y ! j else Y_arr s1 j)"
      unfolding s1_def by blast
    from True ok r have "pushXY_loop X Y k i s = Inr s'"
      by (simp add: pushXY_loop.simps [of X Y k i s] s1_def)
    moreover from x lt have "\<forall>j. X_arr s' j = (if unat i \<le> j \<and> j < unat k then X ! j else X_arr s j)"
      by (auto simp: unat_succ_below [OF True] s1_def)
    moreover from y lt have "\<forall>j. Y_arr s' j = (if unat i \<le> j \<and> j < unat k then Y ! j else Y_arr s j)"
      by (auto simp: unat_succ_below [OF True] s1_def)
    ultimately show ?thesis
      by blast
  qed
qed

lemma pushXY_result:
  assumes "pushXY X Y k s = Inr s'"
  shows "XYn s' = k" and "state s' = DRAWPLAN" and "step s' = 1" and "k < 10"
  using assms
  by (cases "pushXY_loop X Y k 0 s"; auto simp: pushXY_def and_then_def split: if_splits)+

text \<open>
  C2, as the code has it. With more than 10 waypoints the assertion of \<open>pushXY\<close> fails:
  the call does not return, and so changes nothing. With fewer than 10 waypoints, all
  present in the caller's arrays, the order is accepted: the waypoints are copied, \<open>XYn\<close>
  is their number, the mode is DRAWPLAN and the step is 1.
\<close>

theorem pushXY_assertion:
  "(10 < k \<longrightarrow> pushXY X Y k s = Inl AssertionFailed)
   \<and> (k < 10 \<and> unat k \<le> length X \<and> unat k \<le> length Y \<longrightarrow>
        (\<exists>s'. pushXY X Y k s = Inr s' \<and> XYn s' = k \<and> state s' = DRAWPLAN \<and> step s' = 1
           \<and> (\<forall>j<unat k. X_arr s' j = X ! j \<and> Y_arr s' j = Y ! j)))"
proof (intro conjI impI)
  assume "10 < k"
  then have "\<not> k < 10"
    by simp
  then show "pushXY X Y k s = Inl AssertionFailed"
    by (simp add: pushXY_def)
next
  assume a: "k < 10 \<and> unat k \<le> length X \<and> unat k \<le> length Y"
  with pushXY_loop_copies [of k X Y 0 s] obtain s1 where
    r: "pushXY_loop X Y k 0 s = Inr s1"
    and x: "\<forall>j. X_arr s1 j = (if unat (0 :: uint32_t) \<le> j \<and> j < unat k then X ! j else X_arr s j)"
    and y: "\<forall>j. Y_arr s1 j = (if unat (0 :: uint32_t) \<le> j \<and> j < unat k then Y ! j else Y_arr s j)"
    by blast
  from a r have "pushXY X Y k s = Inr (s1\<lparr> XYn := k, state := DRAWPLAN, step := 1 \<rparr>)"
    by (simp add: pushXY_def and_then_def)
  with x y show "\<exists>s'. pushXY X Y k s = Inr s' \<and> XYn s' = k \<and> state s' = DRAWPLAN \<and> step s' = 1
           \<and> (\<forall>j<unat k. X_arr s' j = X ! j \<and> Y_arr s' j = Y ! j)"
    by simp
qed

theorem pushXY_assertion_witness:
  "pushXY [0, 0, 0, 0, 0, 0, 0, 0, 0, 0, 0, 0] [0, 0, 0, 0, 0, 0, 0, 0, 0, 0, 0, 0] 12 fresh
     = Inl AssertionFailed
   \<and> (\<exists>s'. pushXY [0, 1] [0, 0] 2 fresh = Inr s' \<and> XYn s' = 2 \<and> state s' = DRAWPLAN
         \<and> step s' = 1 \<and> X_arr s' 1 = 1)"
proof -
  have "pushXY [0, 0, 0, 0, 0, 0, 0, 0, 0, 0, 0, 0] [0, 0, 0, 0, 0, 0, 0, 0, 0, 0, 0, 0] 12 fresh
     = Inl AssertionFailed"
    using pushXY_assertion [of 12] by simp
  moreover have "\<exists>s'. pushXY [0, 1] [0, 0] 2 fresh = Inr s' \<and> XYn s' = 2 \<and> state s' = DRAWPLAN
         \<and> step s' = 1 \<and> X_arr s' 1 = 1"
    using pushXY_assertion [of 2 "[0, 1]" "[0, 0]" fresh] by auto
  ultimately show ?thesis
    by blast
qed

text \<open>
  C2 as stated fails for an order of 11 waypoints: the call does not return the state
  unchanged, the assertion aborts it.
\<close>

theorem pushXY_rejection_counterexample:
  "pushXY [0, 0, 0, 0, 0, 0, 0, 0, 0, 0, 0] [0, 0, 0, 0, 0, 0, 0, 0, 0, 0, 0] 11 fresh
     = Inl AssertionFailed"
  by (simp add: pushXY_def)

section \<open>The first tick of a path\<close>

lemma segments_loop_first_out_of_bounds:
  assumes "2 \<le> XYn s"
  shows "segments_loop 0 s = Inl IndexOutOfBounds"
proof -
  from assms have "0 < XYn s - 1"
    by unat_arith
  moreover have "\<not> in_bounds (0 - 1)"
    by (simp add: in_bounds_def unsigned_minus_1_eq_mask mask_eq_exp_minus_1)
  ultimately show ?thesis
    by (simp add: segments_loop.simps [of 0 s])
qed

lemma updateXYtoLA_first_out_of_bounds:
  assumes "2 \<le> XYn s"
  shows "updateXYtoLA 0 e s = Inl IndexOutOfBounds"
  using assms
  by (simp add: updateXYtoLA_def Let_def in_bounds_def segments_loop_first_out_of_bounds)

lemma update_DRAWPLAN_first_out_of_bounds:
  assumes "state s = DRAWPLAN" and "step s = 1" and "2 \<le> XYn s"
  shows "update e s = Inl IndexOutOfBounds"
  using assms
  by (simp add: update_def Let_def calculateMove_def calculateDrawPlan_def and_then_def
      updateXYtoLA_first_out_of_bounds)

text \<open>
  C9. After an accepted path order of at least 2 waypoints, the first update tick does not
  return: it calls \<open>updateXYtoLA\<close> with cursor 0, and with at least 2 waypoints that call
  enters the accumulation loop at \<open>i = 0\<close> and reads index \<open>i - 1\<close>, which is
  \<open>4294967295\<close> in unsigned 32-bit arithmetic and outside the 10 cells.
\<close>

theorem first_DrawPlan_tick_out_of_bounds:
  assumes "2 \<le> k" and "pushXY X Y k s = Inr s1"
  shows "update e s1 = Inl IndexOutOfBounds
     \<and> updateXYtoLA 0 e s1 = Inl IndexOutOfBounds
     \<and> (0 :: uint32_t) < XYn s1 - 1
     \<and> unat ((0 :: uint32_t) - 1) = 4294967295
     \<and> \<not> in_bounds ((0 :: uint32_t) - 1)"
proof -
  note r = pushXY_result [OF assms(2)]
  from r(1) assms(1) have n: "2 \<le> XYn s1"
    by simp
  then have "0 < XYn s1 - 1"
    by unat_arith
  moreover have "unat ((0 :: uint32_t) - 1) = 4294967295"
    by (simp add: unsigned_minus_1_eq_mask mask_eq_exp_minus_1)
  moreover from this have "\<not> in_bounds ((0 :: uint32_t) - 1)"
    by (simp add: in_bounds_def)
  ultimately show ?thesis
    using update_DRAWPLAN_first_out_of_bounds [OF r(2) r(3) n]
      updateXYtoLA_first_out_of_bounds [OF n]
    by simp
qed

theorem first_DrawPlan_tick_out_of_bounds_witness:
  "\<exists>s1. pushXY [0, 1] [0, 0] 2 fresh = Inr s1 \<and> update still s1 = Inl IndexOutOfBounds"
proof -
  have "(2 :: uint32_t) < 10 \<and> unat (2 :: uint32_t) \<le> length [0 :: real, 1]
      \<and> unat (2 :: uint32_t) \<le> length [0 :: real, 0]"
    by simp
  with pushXY_loop_copies [of 2 "[0, 1]" "[0, 0]" 0 fresh] obtain s0 where
    "pushXY_loop [0, 1] [0, 0] 2 0 fresh = Inr s0"
    by blast
  then have p: "pushXY [0, 1] [0, 0] 2 fresh = Inr (s0\<lparr> XYn := 2, state := DRAWPLAN, step := 1 \<rparr>)"
    by (simp add: pushXY_def and_then_def)
  have "(2 :: uint32_t) \<le> 2"
    by simp
  from first_DrawPlan_tick_out_of_bounds [OF this p] p show ?thesis
    by blast
qed

section \<open>Aiming at a point\<close>









section \<open>Following a path\<close>

text \<open>
  C5 on the path \<open>three_waypoints\<close>, cursor on the second waypoint, with the robot at
  rest at the origin: \<open>updateXYtoLA 1\<close> stores 2, the distance 1 to the waypoint under
  the cursor plus the length 1 of the segment before it. The distance plus the length of
  the segment after it, as C5 has it, is 3.
\<close>

theorem updateXYtoLA_adds_previous_segment:
  "map_sum id linearSetPoint (updateXYtoLA 1 still three_waypoints) = Inr 2
   \<and> real_of_int (r_Lmm (GetRobot still)) / 1000
       + sqrt ((X_arr three_waypoints 1 - real_of_int (r_Xmm (GetRobot still)) / 1000) ^ 2
             + (Y_arr three_waypoints 1 - real_of_int (r_Ymm (GetRobot still)) / 1000) ^ 2)
       + subsequent_segments 1 three_waypoints = 3"
proof -
  have "map_sum id linearSetPoint (updateXYtoLA 1 still three_waypoints) = Inr 2"
    by (simp add: updateXYtoLA_def Let_def in_bounds_def three_waypoints_def still_def
        no_waypoint_def fresh_def TrajectoryPlanning_new_def segments_loop.simps)
  moreover have "subsequent_segments 1 three_waypoints = 2"
  proof -
    have "{1 ..< unat (XYn three_waypoints) - 1} = {1 :: nat}"
      by (auto simp: three_waypoints_def)
    then show ?thesis
      by (simp add: subsequent_segments_def three_waypoints_def no_waypoint_def fresh_def
          TrajectoryPlanning_new_def)
  qed
  ultimately show ?thesis
    by (simp add: three_waypoints_def still_def no_waypoint_def fresh_def
        TrajectoryPlanning_new_def)
qed










section \<open>The scheduler's tick\<close>

lemma refresh_status_keeps:
  "enable (refresh_status s) = enable s"
  "localTime (refresh_status s) = localTime s + MC_TASK_PERIOD_MS"
  "tp (refresh_status s) = tp s"
  "Qorders (refresh_status s) = Qorders s"
  by (simp_all add: refresh_status_def Let_def)

lemma obstacle_check_keeps:
  "localTime (snd (obstacle_check detect s)) = localTime s"
  "Qorders (snd (obstacle_check detect s)) = Qorders s"
  "enable (snd (obstacle_check detect s)) = enable s"
  "finished (tp (snd (obstacle_check detect s))) = finished (tp s)"
  by (simp_all add: obstacle_check_def FBMotionControl_Stop_def stop_def)

lemma obstacle_check_tp:
  "tp (snd (obstacle_check detect s)) =
     (if localTime s mod SENS_TASK_PERIOD_MS = 0 \<and> detect then stop (tp s) else tp s)"
  by (simp add: obstacle_check_def FBMotionControl_Stop_def)

lemma obstacle_check_calls:
  "fst (obstacle_check detect s) =
     (if localTime s mod SENS_TASK_PERIOD_MS = 0
      then (if detect then [telAv_Detect, Stop_call] else [telAv_Detect]) else [])"
  by (simp add: obstacle_check_def)

lemma pull_order_calls:
  "fst (pull_order e s) = (if isFinished (tp s) then [xQueueReceive] else [])"
  by (simp add: pull_order_def split: list.splits)

lemma pull_order_keeps:
  "localTime (snd (pull_order e s)) = localTime s"
  "Qorders (snd (pull_order e s)) = (if isFinished (tp s) then tl (Qorders s) else Qorders s)"
  "tp (snd (pull_order e s)) =
     (if isFinished (tp s) then (case Qorders s of [] \<Rightarrow> tp s | cmd # rest \<Rightarrow> issue cmd e (tp s))
      else tp s)"
  by (simp_all add: pull_order_def split: list.splits)

lemma Compute_on_tp_tick:
  assumes "enable s" and "(localTime s + MC_TASK_PERIOD_MS) mod TP_TASK_PERIOD_MS = 0"
  shows "fst (FBMotionControl_Compute period detect e s) =
       fst (obstacle_check detect (refresh_status s))
       @ fst (pull_order e (snd (obstacle_check detect (refresh_status s))))
       @ [tp_Compute ((period * real (unat TP_TASK_PERIOD_MS)) / real (unat MC_TASK_PERIOD_MS))]
       @ (case TrajectoryPlanning_Compute
                 ((period * real (unat TP_TASK_PERIOD_MS)) / real (unat MC_TASK_PERIOD_MS)) e
                 (tp (snd (pull_order e (snd (obstacle_check detect (refresh_status s)))))) of
            Inl err \<Rightarrow> []
          | Inr t \<Rightarrow>
              schedule_pc period (snd (pull_order e (snd (obstacle_check detect (refresh_status s))))))"
    and "snd (FBMotionControl_Compute period detect e s) =
       (case TrajectoryPlanning_Compute
                 ((period * real (unat TP_TASK_PERIOD_MS)) / real (unat MC_TASK_PERIOD_MS)) e
                 (tp (snd (pull_order e (snd (obstacle_check detect (refresh_status s)))))) of
          Inl err \<Rightarrow> Inl err
        | Inr t \<Rightarrow>
            Inr ((snd (pull_order e (snd (obstacle_check detect (refresh_status s)))))\<lparr> tp := t \<rparr>))"
  using assms
  by (simp_all add: FBMotionControl_Compute_def Let_def split_beta refresh_status_keeps
      obstacle_check_keeps split: sum.splits)

lemma Compute_STOP:
  assumes "state t = STOP"
  shows "\<exists>t'. TrajectoryPlanning_Compute p e t = Inr t' \<and> state t' = STOP \<and> finished t'"
  using assms by (simp add: TrajectoryPlanning_Compute_def update_idle)

text \<open>
  C3. Let the scheduler be enabled and the tick be one of the obstacle-check rate, with the
  forward telemeter reporting an obstruction, and let the planner be in a mode other than
  FREE and STOP. Then \<open>Compute\<close> calls \<open>Stop\<close>, which leaves the planner in mode STOP
  whatever the mode was. The same call then runs the trajectory tick: unless a stale
  finished flag lets it pull a queued order first, \<open>Compute\<close> returns with the planner in
  mode STOP and \<open>isFinished\<close> true.
\<close>

theorem obstacle_forces_stop:
  assumes "enable s"
    and "(localTime s + MC_TASK_PERIOD_MS) mod SENS_TASK_PERIOD_MS = 0"
    and "state (tp s) \<noteq> FREE \<and> state (tp s) \<noteq> STOP"
  shows "Stop_call \<in> set (fst (FBMotionControl_Compute period True e s))
     \<and> state (tp (snd (obstacle_check True (refresh_status s)))) = STOP
     \<and> ((isFinished (tp s) \<longrightarrow> Qorders s = []) \<longrightarrow>
          (\<exists>s'. snd (FBMotionControl_Compute period True e s) = Inr s'
              \<and> state (tp s') = STOP \<and> isFinished (tp s')))"
proof -
  let ?s2 = "snd (obstacle_check True (refresh_status s))"
  let ?s3 = "snd (pull_order e ?s2)"
  let ?p = "(period * real (unat TP_TASK_PERIOD_MS)) / real (unat MC_TASK_PERIOD_MS)"
  from assms(2) have tick: "localTime (refresh_status s) mod SENS_TASK_PERIOD_MS = 0"
    and tptick: "(localTime s + MC_TASK_PERIOD_MS) mod TP_TASK_PERIOD_MS = 0"
    by (simp_all add: refresh_status_keeps SENS_TASK_PERIOD_MS_def TP_TASK_PERIOD_MS_def)
  have t2: "tp ?s2 = stop (tp s)"
    using tick by (simp add: obstacle_check_tp refresh_status_keeps)
  have c2: "fst (obstacle_check True (refresh_status s)) = [telAv_Detect, Stop_call]"
    using tick by (simp add: obstacle_check_calls)
  note C = Compute_on_tp_tick [OF assms(1) tptick, of period True e]
  have a: "Stop_call \<in> set (fst (FBMotionControl_Compute period True e s))"
    by (simp add: C(1) c2)
  have b: "state (tp ?s2) = STOP"
    using t2 by (simp add: stop_def)
  have c: "\<exists>s'. snd (FBMotionControl_Compute period True e s) = Inr s'
              \<and> state (tp s') = STOP \<and> isFinished (tp s')"
    if q: "isFinished (tp s) \<longrightarrow> Qorders s = []"
  proof -
    have "tp ?s3 = stop (tp s)"
      using q t2
      by (simp add: pull_order_keeps isFinished_def stop_def obstacle_check_keeps
          refresh_status_keeps)
    then have "state (tp ?s3) = STOP"
      by (simp add: stop_def)
    from Compute_STOP [OF this, of ?p e] obtain t' where
      t: "TrajectoryPlanning_Compute ?p e (tp ?s3) = Inr t'" and "state t' = STOP" "finished t'"
      by blast
    then show ?thesis
      by (simp add: C(2) isFinished_def)
  qed
  from a b c show ?thesis
    by blast
qed

theorem obstacle_forces_stop_witness:
  "enable busy_scheduler
   \<and> (localTime busy_scheduler + MC_TASK_PERIOD_MS) mod SENS_TASK_PERIOD_MS = 0
   \<and> state (tp busy_scheduler) = LINEAR
   \<and> \<not> isFinished (tp busy_scheduler)
   \<and> Stop_call \<in> set (fst (FBMotionControl_Compute 5 True still busy_scheduler))
   \<and> (\<exists>s'. snd (FBMotionControl_Compute 5 True still busy_scheduler) = Inr s'
          \<and> state (tp s') = STOP \<and> isFinished (tp s'))"
proof -
  have h: "enable busy_scheduler"
    "(localTime busy_scheduler + MC_TASK_PERIOD_MS) mod SENS_TASK_PERIOD_MS = 0"
    "state (tp busy_scheduler) \<noteq> FREE \<and> state (tp busy_scheduler) \<noteq> STOP"
    and m: "state (tp busy_scheduler) = LINEAR"
    and f: "\<not> isFinished (tp busy_scheduler)"
    by (simp_all add: busy_scheduler_def moving_def MC_TASK_PERIOD_MS_def
        SENS_TASK_PERIOD_MS_def isFinished_def)
  from obstacle_forces_stop [OF h, of 5 still] f h(1) h(2) m show ?thesis
    by simp
qed

text \<open>
  The scheduler keeps the flag consistent in one direction: after a \<open>Compute\<close> that
  returns, a planner in a mode other than FREE and STOP has its finished flag false,
  provided this held before the call. It holds for a freshly constructed planner.
\<close>

lemma update_flag_consistent:
  assumes "update e t = Inr t'" and "state t' \<noteq> FREE" and "state t' \<noteq> STOP"
  shows "\<not> finished t'"
proof
  assume "finished t'"
  with update_finished [OF assms(1)] have idle: "state t = FREE \<or> state t = STOP"
    by simp
  from update_idle [OF idle, of e] assms(1) have "state t' = state t"
    by auto
  with idle assms(2,3) show False
    by simp
qed

lemma Compute_off_tp_tick:
  assumes "enable s" and "(localTime s + MC_TASK_PERIOD_MS) mod TP_TASK_PERIOD_MS \<noteq> 0"
  shows "snd (FBMotionControl_Compute period detect e s) = Inr (refresh_status s)"
proof -
  from assms(2) have "localTime (refresh_status s) mod SENS_TASK_PERIOD_MS \<noteq> 0"
    by (simp add: refresh_status_keeps SENS_TASK_PERIOD_MS_def TP_TASK_PERIOD_MS_def)
  then have "obstacle_check detect (refresh_status s) = ([], refresh_status s)"
    by (simp add: obstacle_check_def)
  with assms show ?thesis
    by (simp add: FBMotionControl_Compute_def Let_def refresh_status_keeps)
qed

lemma Compute_flag_consistent:
  assumes "snd (FBMotionControl_Compute period detect e s) = Inr s'"
    and "state (tp s) \<noteq> FREE \<and> state (tp s) \<noteq> STOP \<longrightarrow> \<not> finished (tp s)"
  shows "state (tp s') \<noteq> FREE \<and> state (tp s') \<noteq> STOP \<longrightarrow> \<not> finished (tp s')"
proof (cases "enable s")
  case False
  with assms(1) have "s' = refresh_status s"
    by (simp add: FBMotionControl_Compute_def Let_def refresh_status_keeps)
  with assms(2) show ?thesis
    by (simp add: refresh_status_keeps)
next
  case True
  show ?thesis
  proof (cases "(localTime s + MC_TASK_PERIOD_MS) mod TP_TASK_PERIOD_MS = 0")
    case False
    from Compute_off_tp_tick [OF True False, of period detect e] assms(1)
    have "s' = refresh_status s"
      by simp
    with assms(2) show ?thesis
      by (simp add: refresh_status_keeps)
  next
    case tick: True
    let ?s3 = "snd (pull_order e (snd (obstacle_check detect (refresh_status s))))"
    let ?p = "(period * real (unat TP_TASK_PERIOD_MS)) / real (unat MC_TASK_PERIOD_MS)"
    from Compute_on_tp_tick(2) [OF True tick, of period detect e] assms(1)
    obtain t where t: "TrajectoryPlanning_Compute ?p e (tp ?s3) = Inr t" and "s' = ?s3\<lparr> tp := t \<rparr>"
      by (cases "TrajectoryPlanning_Compute ?p e (tp ?s3)") simp_all
    then have "tp s' = t"
      by simp
    with t update_flag_consistent show ?thesis
      unfolding TrajectoryPlanning_Compute_def by blast
  qed
qed

text \<open>
  C8. On a tick of the trajectory rate with the scheduler enabled, \<open>Compute\<close> calls
  \<open>xQueueReceive\<close> once if the planner reports \<open>isFinished\<close> and not at all otherwise;
  if it returns, the queue has lost its oldest order in the first case (an empty queue
  stays empty) and is unchanged in the second. It calls the planner's \<open>Compute\<close> exactly
  once, with the period times the ratio of the trajectory period to the base period, on
  the planner as left by the obstacle check and by the order pulled, if any; the planner
  \<open>Compute\<close> leaves is the result of that call.
\<close>

theorem trajectory_tick:
  assumes "enable s"
    and "(localTime s + MC_TASK_PERIOD_MS) mod TP_TASK_PERIOD_MS = 0"
  shows "count_list (fst (FBMotionControl_Compute period detect e s)) xQueueReceive
           = (if isFinished (tp s) then 1 else 0)
     \<and> (\<forall>s'. snd (FBMotionControl_Compute period detect e s) = Inr s' \<longrightarrow>
            Qorders s' = (if isFinished (tp s) then tl (Qorders s) else Qorders s))
     \<and> count_list (fst (FBMotionControl_Compute period detect e s))
           (tp_Compute (period * (real (unat TP_TASK_PERIOD_MS) / real (unat MC_TASK_PERIOD_MS))))
           = 1
     \<and> (\<forall>q. tp_Compute q \<in> set (fst (FBMotionControl_Compute period detect e s)) \<longrightarrow>
            q = period * (real (unat TP_TASK_PERIOD_MS) / real (unat MC_TASK_PERIOD_MS)))
     \<and> map_sum id tp (snd (FBMotionControl_Compute period detect e s))
         = TrajectoryPlanning_Compute
             (period * (real (unat TP_TASK_PERIOD_MS) / real (unat MC_TASK_PERIOD_MS))) e
             (let t0 = (if detect then stop (tp s) else tp s)
              in if isFinished (tp s)
                 then (case Qorders s of [] \<Rightarrow> t0 | cmd # rest \<Rightarrow> issue cmd e t0)
                 else t0)"
proof -
  let ?s2 = "snd (obstacle_check detect (refresh_status s))"
  let ?s3 = "snd (pull_order e ?s2)"
  let ?p = "(period * real (unat TP_TASK_PERIOD_MS)) / real (unat MC_TASK_PERIOD_MS)"
  let ?C = "FBMotionControl_Compute period detect e s"
  have p: "period * (real (unat TP_TASK_PERIOD_MS) / real (unat MC_TASK_PERIOD_MS)) = ?p"
    by simp
  from assms(2) have tick: "localTime (refresh_status s) mod SENS_TASK_PERIOD_MS = 0"
    by (simp add: refresh_status_keeps SENS_TASK_PERIOD_MS_def TP_TASK_PERIOD_MS_def)
  note C = Compute_on_tp_tick [OF assms, of period detect e]
  have f2: "isFinished (tp ?s2) = isFinished (tp s)"
    by (simp add: isFinished_def obstacle_check_keeps refresh_status_keeps)
  have t2: "tp ?s2 = (if detect then stop (tp s) else tp s)"
    using tick by (simp add: obstacle_check_tp refresh_status_keeps)
  have q2: "Qorders ?s2 = Qorders s"
    by (simp add: obstacle_check_keeps refresh_status_keeps)
  have pc: "xQueueReceive \<notin> set (schedule_pc period ?s3)"
    "\<And>q. tp_Compute q \<notin> set (schedule_pc period ?s3)"
    by (simp_all add: schedule_pc_def)
  have a: "count_list (fst ?C) xQueueReceive = (if isFinished (tp s) then 1 else 0)"
    using pc(1)
    by (cases "TrajectoryPlanning_Compute ?p e (tp ?s3)")
       (simp_all add: C(1) obstacle_check_calls pull_order_calls f2 count_list_0_iff)
  have b: "\<forall>s'. snd ?C = Inr s' \<longrightarrow>
            Qorders s' = (if isFinished (tp s) then tl (Qorders s) else Qorders s)"
    by (cases "TrajectoryPlanning_Compute ?p e (tp ?s3)")
       (auto simp: C(2) pull_order_keeps f2 q2)
  have c: "count_list (fst ?C) (tp_Compute ?p) = 1"
    using pc(2) [of ?p]
    by (cases "TrajectoryPlanning_Compute ?p e (tp ?s3)")
       (simp_all add: C(1) obstacle_check_calls pull_order_calls count_list_0_iff)
  have d: "\<forall>q. tp_Compute q \<in> set (fst ?C) \<longrightarrow> q = ?p"
    using pc(2)
    by (cases "TrajectoryPlanning_Compute ?p e (tp ?s3)")
       (auto simp: C(1) obstacle_check_calls pull_order_calls split: if_splits)
  have t3: "tp ?s3 = (let t0 = (if detect then stop (tp s) else tp s)
              in if isFinished (tp s)
                 then (case Qorders s of [] \<Rightarrow> t0 | cmd # rest \<Rightarrow> issue cmd e t0)
                 else t0)"
  proof -
    have "tp ?s3 = (if isFinished (tp ?s2)
                    then (case Qorders ?s2 of [] \<Rightarrow> tp ?s2 | cmd # rest \<Rightarrow> issue cmd e (tp ?s2))
                    else tp ?s2)"
      by (rule pull_order_keeps(3))
    moreover have "isFinished (if detect then stop (tp s) else tp s) = isFinished (tp s)"
      by (simp add: isFinished_def stop_def)
    ultimately show ?thesis
      by (simp only: q2 t2 Let_def)
  qed
  have e: "map_sum id tp (snd ?C) = TrajectoryPlanning_Compute ?p e (tp ?s3)"
    by (cases "TrajectoryPlanning_Compute ?p e (tp ?s3)") (simp_all add: C(2))
  from a b c d e show ?thesis
    unfolding p t3 by blast
qed

lemma Compute_goLinear_first:
  "TrajectoryPlanning_Compute p still (goLinear 1 still fresh) =
     Inr (fresh\<lparr> linearSetPoint := 1, state := LINEAR, step := 2,
             status := 257, finished := False,
             calls := [Enable, SetLinearPosition 1, SetAngularPosition 0] \<rparr>)"
  by (simp add: TrajectoryPlanning_Compute_def update_def goLinear_def Let_def calculateMove_def
      calculateGoLinear_def still_def fresh_def TrajectoryPlanning_new_def)

theorem trajectory_tick_witness:
  "enable idle_scheduler
   \<and> (localTime idle_scheduler + MC_TASK_PERIOD_MS) mod TP_TASK_PERIOD_MS = 0
   \<and> isFinished (tp idle_scheduler)
   \<and> count_list (fst (FBMotionControl_Compute 5 False still idle_scheduler)) xQueueReceive = 1
   \<and> count_list (fst (FBMotionControl_Compute 5 False still idle_scheduler)) (tp_Compute 200) = 1
   \<and> (\<exists>s'. snd (FBMotionControl_Compute 5 False still idle_scheduler) = Inr s'
          \<and> Qorders s' = [CMD_ID_GOANG 1] \<and> state (tp s') = LINEAR)"
proof -
  have h: "enable idle_scheduler"
    "(localTime idle_scheduler + MC_TASK_PERIOD_MS) mod TP_TASK_PERIOD_MS = 0"
    and f: "isFinished (tp idle_scheduler)"
    and q: "Qorders idle_scheduler = [CMD_ID_GOLIN 1, CMD_ID_GOANG 1]"
    and t: "tp idle_scheduler = fresh"
    by (simp_all add: idle_scheduler_def MC_TASK_PERIOD_MS_def TP_TASK_PERIOD_MS_def
        isFinished_def fresh_def TrajectoryPlanning_new_def)
  have r: "(5 :: real) * (real (unat TP_TASK_PERIOD_MS) / real (unat MC_TASK_PERIOD_MS)) = 200"
    by (simp add: MC_TASK_PERIOD_MS_def TP_TASK_PERIOD_MS_def)
  note T = trajectory_tick [OF h, of 5 False still, unfolded r]
  from T f have a: "count_list (fst (FBMotionControl_Compute 5 False still idle_scheduler)) xQueueReceive = 1"
    by simp
  from T have b: "count_list (fst (FBMotionControl_Compute 5 False still idle_scheduler)) (tp_Compute 200) = 1"
    by simp
  from T f q t have m: "map_sum id tp (snd (FBMotionControl_Compute 5 False still idle_scheduler))
      = Inr (fresh\<lparr> linearSetPoint := 1, state := LINEAR, step := 2,
             status := 257, finished := False,
             calls := [Enable, SetLinearPosition 1, SetAngularPosition 0] \<rparr>)"
    by (simp add: issue_def Compute_goLinear_first)
  then obtain s' where s': "snd (FBMotionControl_Compute 5 False still idle_scheduler) = Inr s'"
    by (cases "snd (FBMotionControl_Compute 5 False still idle_scheduler)") simp_all
  with m have "state (tp s') = LINEAR"
    by simp
  moreover from T s' f q have "Qorders s' = [CMD_ID_GOANG 1]"
    by simp
  ultimately show ?thesis
    using h f a b s' by blast
qed

end
